theory Spec2Isabelle
  imports Complex_Main "HOL-Library.Sublist"
begin

section \<open>Python values and the operations the validators use\<close>

text \<open>
  The quiz generator's responses are parsed JSON. A decoded value is one of Python's
  \<open>None\<close>, \<open>bool\<close>, number, \<open>str\<close>, \<open>list\<close> or \<open>dict\<close>; a dict is kept as the
  list of its items in insertion order (keys distinct). No operation below reads a number,
  so integers stand for all of them.
\<close>

datatype json =
    JNull
  | JBool bool
  | JNum int
  | JStr string
  | JArr "json list"
  | JObj "(string \<times> json) list"

text \<open>The reasons the validators give when they raise \<open>ValueError\<close>.\<close>

datatype value_error =
    MissingQuiz
  | MissingField nat string
  | OptionCount nat
  | InvalidAnswer nat json
  | InvalidDifficulty nat

datatype py_error =
    ValueError value_error
  | TypeError
  | KeyError string
  | IndexError
  | ZeroDivisionError
  | OutputParserException

text \<open>\<open>needle in hay\<close> on two strings: \<open>needle\<close> occurs in \<open>hay\<close> as a contiguous run.\<close>

fun str_contains :: "string \<Rightarrow> string \<Rightarrow> bool" where
  "str_contains needle [] = (needle = [])"
| "str_contains needle (c # cs) = (prefix needle (c # cs) \<or> str_contains needle cs)"

text \<open>
  \<open>key in container\<close> for a string key: membership among the keys of a dict, among the
  elements of a list, substring test on a string; \<open>TypeError\<close> on anything else.
\<close>

fun py_contains :: "string \<Rightarrow> json \<Rightarrow> py_error + bool" where
  "py_contains k (JObj items) = Inr (k \<in> set (map fst items))"
| "py_contains k (JArr xs) = Inr (JStr k \<in> set xs)"
| "py_contains k (JStr s) = Inr (str_contains k s)"
| "py_contains k JNull = Inl TypeError"
| "py_contains k (JBool b) = Inl TypeError"
| "py_contains k (JNum n) = Inl TypeError"

text \<open>
  \<open>container[key]\<close> for a string key: the value stored in a dict (\<open>KeyError\<close> when the key
  is missing); lists and strings take integer indices only and everything else is not
  subscriptable, so they raise \<open>TypeError\<close>.
\<close>

fun py_getitem :: "json \<Rightarrow> string \<Rightarrow> py_error + json" where
  "py_getitem (JObj items) k =
     (case map_of items k of None \<Rightarrow> Inl (KeyError k) | Some v \<Rightarrow> Inr v)"
| "py_getitem (JArr xs) k = Inl TypeError"
| "py_getitem (JStr s) k = Inl TypeError"
| "py_getitem JNull k = Inl TypeError"
| "py_getitem (JBool b) k = Inl TypeError"
| "py_getitem (JNum n) k = Inl TypeError"

text \<open>\<open>len(x)\<close>: defined on lists, strings and dicts.\<close>

fun py_len :: "json \<Rightarrow> py_error + nat" where
  "py_len (JArr xs) = Inr (length xs)"
| "py_len (JStr s) = Inr (length s)"
| "py_len (JObj items) = Inr (length items)"
| "py_len JNull = Inl TypeError"
| "py_len (JBool b) = Inl TypeError"
| "py_len (JNum n) = Inl TypeError"

text \<open>
  What a \<open>for\<close> loop walks through: the elements of a list, the keys of a dict, the
  one-character strings of a string.
\<close>

fun py_iter :: "json \<Rightarrow> py_error + json list" where
  "py_iter (JArr xs) = Inr xs"
| "py_iter (JObj items) = Inr (map (\<lambda>kv. JStr (fst kv)) items)"
| "py_iter (JStr s) = Inr (map (\<lambda>c. JStr [c]) s)"
| "py_iter JNull = Inl TypeError"
| "py_iter (JBool b) = Inl TypeError"
| "py_iter (JNum n) = Inl TypeError"

section \<open>\<open>validate_quiz_json\<close>\<close>

definition quiz_fields :: "string list" where
  "quiz_fields = [''question'', ''options'', ''answer'', ''difficulty'', ''explanation'']"

definition answer_letters :: "json list" where
  "answer_letters = [JStr ''A'', JStr ''B'', JStr ''C'', JStr ''D'']"

definition difficulty_levels :: "json list" where
  "difficulty_levels = [JStr ''easy'', JStr ''medium'', JStr ''hard'']"

text \<open>\<open>for field in quiz_fields: if field not in q: raise ValueError(...)\<close>\<close>

fun check_fields :: "nat \<Rightarrow> json \<Rightarrow> string list \<Rightarrow> py_error + unit" where
  "check_fields i q [] = Inr ()"
| "check_fields i q (field # fields) =
     (case py_contains field q of
        Inl e \<Rightarrow> Inl e
      | Inr present \<Rightarrow>
          if \<not> present then Inl (ValueError (MissingField i field))
          else check_fields i q fields)"

text \<open>The body of the loop over the questions, for question \<open>q\<close> at index \<open>i\<close>.\<close>

definition validate_question :: "nat \<Rightarrow> json \<Rightarrow> py_error + unit" where
  "validate_question i q =
     (case check_fields i q quiz_fields of
        Inl e \<Rightarrow> Inl e
      | Inr u \<Rightarrow>
     (case py_getitem q ''options'' of
        Inl e \<Rightarrow> Inl e
      | Inr opts \<Rightarrow>
     (case py_len opts of
        Inl e \<Rightarrow> Inl e
      | Inr n \<Rightarrow>
          if n \<noteq> 4 then Inl (ValueError (OptionCount i))
          else
     (case py_getitem q ''answer'' of
        Inl e \<Rightarrow> Inl e
      | Inr a \<Rightarrow>
          if a \<notin> set answer_letters then Inl (ValueError (InvalidAnswer i a))
          else
     (case py_getitem q ''difficulty'' of
        Inl e \<Rightarrow> Inl e
      | Inr d \<Rightarrow>
          if d \<notin> set difficulty_levels then Inl (ValueError (InvalidDifficulty i))
          else Inr ())))))"

text \<open>\<open>for i, q in enumerate(response['quiz'])\<close>: stops at the first question that raises.\<close>

fun validate_questions :: "nat \<Rightarrow> json list \<Rightarrow> py_error + unit" where
  "validate_questions i [] = Inr ()"
| "validate_questions i (q # qs) =
     (case validate_question i q of
        Inl e \<Rightarrow> Inl e
      | Inr u \<Rightarrow> validate_questions (Suc i) qs)"

definition validate_quiz_json :: "json \<Rightarrow> py_error + bool" where
  "validate_quiz_json response =
     (case py_contains ''quiz'' response of
        Inl e \<Rightarrow> Inl e
      | Inr present \<Rightarrow>
          if \<not> present then Inl (ValueError MissingQuiz)
          else
     (case py_getitem response ''quiz'' of
        Inl e \<Rightarrow> Inl e
      | Inr quiz \<Rightarrow>
     (case py_iter quiz of
        Inl e \<Rightarrow> Inl e
      | Inr qs \<Rightarrow>
     (case validate_questions 0 qs of
        Inl e \<Rightarrow> Inl e
      | Inr u \<Rightarrow> Inr True))))"

section \<open>\<open>generate_quiz\<close>\<close>

text \<open>
  The chain \<open>prompt | llm | JsonOutputParser()\<close> is the language model: \<open>invoke\<close> gives,
  for the attempt number and the requested \<open>num_questions\<close>, the parsed response or the
  exception the chain raised. The structure check \<open>validate_quiz_structure\<close> is a
  parameter too; the validator the plan defines for it is \<open>validate_quiz_json\<close>.

  One pass through the body of \<open>try\<close>: invoke, validate, and hand back the result as it
  came.
\<close>

definition attempt_quiz ::
  "(json \<Rightarrow> py_error + bool) \<Rightarrow> (nat \<Rightarrow> int \<Rightarrow> py_error + json) \<Rightarrow> int \<Rightarrow> nat
     \<Rightarrow> py_error + json" where
  "attempt_quiz validate_quiz_structure invoke num_questions attempt =
     (case invoke attempt num_questions of
        Inl e \<Rightarrow> Inl e
      | Inr result \<Rightarrow>
          (case validate_quiz_structure result of
             Inl e \<Rightarrow> Inl e
           | Inr ok \<Rightarrow> Inr result))"

text \<open>
  \<open>for attempt in range(3)\<close>: an exception is re-raised when \<open>attempt == 2\<close> and swallowed
  otherwise. A loop that ran off the end of its range would return \<open>None\<close>.
\<close>

fun retry_quiz ::
  "(json \<Rightarrow> py_error + bool) \<Rightarrow> (nat \<Rightarrow> int \<Rightarrow> py_error + json) \<Rightarrow> int \<Rightarrow> nat list
     \<Rightarrow> py_error + json" where
  "retry_quiz validate_quiz_structure invoke num_questions [] = Inr JNull"
| "retry_quiz validate_quiz_structure invoke num_questions (attempt # rest) =
     (case attempt_quiz validate_quiz_structure invoke num_questions attempt of
        Inr result \<Rightarrow> Inr result
      | Inl e \<Rightarrow>
          if attempt = 2 then Inl e
          else retry_quiz validate_quiz_structure invoke num_questions rest)"

definition generate_quiz ::
  "(json \<Rightarrow> py_error + bool) \<Rightarrow> (nat \<Rightarrow> int \<Rightarrow> py_error + json) \<Rightarrow> int
     \<Rightarrow> py_error + json" where
  "generate_quiz validate_quiz_structure invoke num_questions =
     retry_quiz validate_quiz_structure invoke num_questions [0, 1, 2]"

section \<open>Post-processing: grounding and duplicate detection\<close>

text \<open>The lines the two post-processing steps write with \<open>logger.warning\<close>.\<close>

datatype log_record =
    LowGroundingWarning json
  | VerySimilarWarning nat nat

subsection \<open>\<open>validate_question_grounding\<close>\<close>

text \<open>
  \<open>extract_key_terms\<close> is not defined by the plan and \<open>str.lower\<close> is the runtime's case
  mapping: both are parameters. The function returns the log next to its result, so a
  warning written before an exception is kept. The quotient of the two lengths is taken
  over the reals; a division by zero raises, as Python's does.
\<close>

definition validate_question_grounding ::
  "(json \<Rightarrow> py_error + string list) \<Rightarrow> (string \<Rightarrow> string) \<Rightarrow> log_record list
     \<Rightarrow> json \<Rightarrow> string \<Rightarrow> log_record list \<times> (py_error + bool)" where
  "validate_question_grounding extract_key_terms lower lg question article_text =
     (case py_getitem question ''question'' of
        Inl e \<Rightarrow> (lg, Inl e)
      | Inr text \<Rightarrow>
     (case extract_key_terms text of
        Inl e \<Rightarrow> (lg, Inl e)
      | Inr question_terms \<Rightarrow>
          let grounded_terms =
                filter (\<lambda>term. str_contains (lower term) (lower article_text)) question_terms
          in if length question_terms = 0 then (lg, Inl ZeroDivisionError)
             else if real (length grounded_terms) / real (length question_terms) < 0.5
               then (lg @ [LowGroundingWarning text], Inr True)
               else (lg, Inr True)))"

subsection \<open>\<open>check_duplicate_questions\<close>\<close>

text \<open>
  \<open>similar a b\<close> stands for \<open>SequenceMatcher(None, a, b).ratio() > 0.8\<close> of the standard
  library, with whatever it raises. The two \<open>['question']\<close> lookups come first, left to
  right.
\<close>

definition question_texts_similar ::
  "(json \<Rightarrow> json \<Rightarrow> py_error + bool) \<Rightarrow> json \<Rightarrow> json \<Rightarrow> py_error + bool" where
  "question_texts_similar similar q1 q2 =
     (case py_getitem q1 ''question'' of
        Inl e \<Rightarrow> Inl e
      | Inr a \<Rightarrow>
          (case py_getitem q2 ''question'' of
             Inl e \<Rightarrow> Inl e
           | Inr b \<Rightarrow> similar a b))"

text \<open>\<open>questions.pop(j)\<close> for \<open>j \<ge> 0\<close>: removes the element at \<open>j\<close>, or raises.\<close>

definition py_pop :: "nat \<Rightarrow> 'a list \<Rightarrow> py_error + 'a list" where
  "py_pop j xs = (if j < length xs then Inr (take j xs @ drop (Suc j) xs) else Inl IndexError)"

text \<open>
  The inner loop walks the slice \<open>questions[i+1:]\<close>, a copy taken when the loop starts,
  counting \<open>j\<close> from \<open>i + 1\<close>; each \<open>pop(j)\<close> acts on the list itself, which the copy no
  longer mirrors once an element is gone.
\<close>

fun dup_inner ::
  "(json \<Rightarrow> json \<Rightarrow> py_error + bool) \<Rightarrow> nat \<Rightarrow> json \<Rightarrow> nat \<Rightarrow> json list
     \<Rightarrow> log_record list \<Rightarrow> json list \<Rightarrow> log_record list \<times> (py_error + json list)" where
  "dup_inner similar i q1 j [] lg questions = (lg, Inr questions)"
| "dup_inner similar i q1 j (q2 # rest) lg questions =
     (case question_texts_similar similar q1 q2 of
        Inl e \<Rightarrow> (lg, Inl e)
      | Inr is_similar \<Rightarrow>
          if is_similar then
            (case py_pop j questions of
               Inl e \<Rightarrow> (lg @ [VerySimilarWarning i j], Inl e)
             | Inr popped \<Rightarrow>
                 dup_inner similar i q1 (Suc j) rest (lg @ [VerySimilarWarning i j]) popped)
          else dup_inner similar i q1 (Suc j) rest lg questions)"

text \<open>
  The outer loop is a list iterator over the list being changed: it asks for index \<open>i\<close>
  as long as \<open>i\<close> is below the current length.
\<close>

function dup_outer ::
  "(json \<Rightarrow> json \<Rightarrow> py_error + bool) \<Rightarrow> nat \<Rightarrow> log_record list \<Rightarrow> json list
     \<Rightarrow> log_record list \<times> (py_error + json list)" where
  "dup_outer similar i lg questions =
     (if i < length questions then
        (case dup_inner similar i (questions ! i) (Suc i) (drop (Suc i) questions) lg questions of
           (lg', Inl e) \<Rightarrow> (lg', Inl e)
         | (lg', Inr questions') \<Rightarrow> dup_outer similar (Suc i) lg' questions')
      else (lg, Inr questions))"
  by pat_completeness auto
termination
proof (relation "measure (\<lambda>(similar, i, lg, questions). length questions - i)")
  show "wf (measure (\<lambda>(similar :: json \<Rightarrow> json \<Rightarrow> py_error + bool, i :: nat,
      lg :: log_record list, questions :: json list). length questions - i))"
    by simp
next
  fix similar :: "json \<Rightarrow> json \<Rightarrow> py_error + bool"
  fix i :: nat and lg lg' :: "log_record list" and questions questions' :: "json list"
  fix r :: "py_error + json list"
  assume i: "i < length questions"
    and x: "(lg', r) = dup_inner similar i (questions ! i) (Suc i) (drop (Suc i) questions)
               lg questions"
    and r: "r = Inr questions'"
  have shrink: "length out \<le> length live"
    if "dup_inner similar i q1 j snapshot l live = (l', Inr out)"
    for q1 j snapshot l live l' out
    using that
  proof (induction snapshot arbitrary: j l live)
    case Nil
    then show ?case by simp
  next
    case (Cons q2 rest)
    show ?case
    proof (cases "question_texts_similar similar q1 q2")
      case (Inl e)
      with Cons.prems show ?thesis by simp
    next
      case (Inr is_similar)
      show ?thesis
      proof (cases is_similar)
        case False
        with Inr Cons.prems have "dup_inner similar i q1 (Suc j) rest l live = (l', Inr out)"
          by simp
        then show ?thesis by (rule Cons.IH)
      next
        case True
        show ?thesis
        proof (cases "j < length live")
          case False
          with True Inr Cons.prems show ?thesis by (simp add: py_pop_def)
        next
          case jl: True
          with True Inr Cons.prems
          have "dup_inner similar i q1 (Suc j) rest (l @ [VerySimilarWarning i j])
                  (take j live @ drop (Suc j) live) = (l', Inr out)"
            by (simp add: py_pop_def)
          then have "length out \<le> length (take j live @ drop (Suc j) live)"
            by (rule Cons.IH)
          then show ?thesis by simp
        qed
      qed
    qed
  qed
  from x r have "dup_inner similar i (questions ! i) (Suc i) (drop (Suc i) questions) lg questions
      = (lg', Inr questions')"
    by simp
  then have "length questions' \<le> length questions" by (rule shrink)
  with i show "((similar, Suc i, lg', questions'), (similar, i, lg, questions))
      \<in> measure (\<lambda>(similar, i, lg, questions). length questions - i)"
    by simp
qed

declare dup_outer.simps [simp del]

definition check_duplicate_questions ::
  "(json \<Rightarrow> json \<Rightarrow> py_error + bool) \<Rightarrow> log_record list \<Rightarrow> json list
     \<Rightarrow> log_record list \<times> (py_error + json list)" where
  "check_duplicate_questions similar lg questions = dup_outer similar 0 lg questions"

section \<open>The front end\<close>

subsection \<open>\<open>QuizDisplay\<close>: the options of a question\<close>

text \<open>
  The quiz the component receives is a parsed JSON payload, so the same \<open>json\<close> values
  serve; a property that is absent reads as \<open>undefined\<close>, here \<open>None\<close>.
\<close>

datatype js_error = JSTypeError

text \<open>
  \<open>value.name\<close>, for the names the component reads (\<open>options\<close>, \<open>answer\<close>): the own
  property of an object or \<open>undefined\<close>; \<open>undefined\<close> too on strings, numbers, booleans and
  arrays, which have no such property; reading it off \<open>null\<close> throws.
\<close>

fun js_prop :: "json \<Rightarrow> string \<Rightarrow> js_error + json option" where
  "js_prop (JObj items) name = Inr (map_of items name)"
| "js_prop JNull name = Inl JSTypeError"
| "js_prop (JBool b) name = Inr None"
| "js_prop (JNum n) name = Inr None"
| "js_prop (JStr s) name = Inr None"
| "js_prop (JArr xs) name = Inr None"

text \<open>Truthiness, which \<open>||\<close> tests.\<close>

fun js_truthy :: "json option \<Rightarrow> bool" where
  "js_truthy None = False"
| "js_truthy (Some JNull) = False"
| "js_truthy (Some (JBool b)) = b"
| "js_truthy (Some (JNum n)) = (n \<noteq> 0)"
| "js_truthy (Some (JStr s)) = (s \<noteq> [])"
| "js_truthy (Some (JArr xs)) = True"
| "js_truthy (Some (JObj items)) = True"

text \<open>
  \<open>option === correctAnswerText\<close>: primitives are equal when they have the same type and
  value. Arrays and objects are equal only to themselves, and the option and the answer
  are different parts of the payload; an array element is never \<open>undefined\<close>.
\<close>

fun strict_equals :: "json \<Rightarrow> json option \<Rightarrow> bool" where
  "strict_equals (JStr a) (Some (JStr b)) = (a = b)"
| "strict_equals (JNum a) (Some (JNum b)) = (a = b)"
| "strict_equals (JBool a) (Some (JBool b)) = (a = b)"
| "strict_equals JNull (Some JNull) = True"
| "strict_equals option correctAnswerText = False"

text \<open>
  What one option shows: its letter (the code unit \<open>String.fromCharCode(65 + optIdx)\<close>
  holds), the option, and whether it carries the green border and the "Correct" mark.
\<close>

record option_view =
  letter :: nat
  option_shown :: json
  isCorrect :: bool

fun render_option_list :: "json option \<Rightarrow> nat \<Rightarrow> json list \<Rightarrow> option_view list" where
  "render_option_list correctAnswerText optIdx [] = []"
| "render_option_list correctAnswerText optIdx (option # rest) =
     \<lparr>letter = (65 + optIdx) mod 65536,
      option_shown = option,
      isCorrect = strict_equals option correctAnswerText\<rparr>
     # render_option_list correctAnswerText (Suc optIdx) rest"

text \<open>
  \<open>optionList = question.options || []\<close>, \<open>correctAnswerText = question.answer\<close>, then
  \<open>optionList.map(...)\<close>, which only an array has.
\<close>

definition render_options :: "json \<Rightarrow> js_error + option_view list" where
  "render_options question =
     (case js_prop question ''options'' of
        Inl e \<Rightarrow> Inl e
      | Inr options \<Rightarrow>
          let optionList = (if js_truthy options then options else Some (JArr []))
          in (case js_prop question ''answer'' of
                Inl e \<Rightarrow> Inl e
              | Inr correctAnswerText \<Rightarrow>
                  (case optionList of
                     Some (JArr xs) \<Rightarrow> Inr (render_option_list correctAnswerText 0 xs)
                   | _ \<Rightarrow> Inl JSTypeError)))"

subsection \<open>\<open>QuizHistory\<close>: the page number\<close>

text \<open>
  The component's state, with \<open>limit = 20\<close> and \<open>totalPages = Math.ceil(total / limit)\<close>.
  \<open>total\<close> is the count the server reported at the last successful fetch.
\<close>

record history_state =
  history_quizzes :: "json list"
  total :: int
  page :: int
  search :: string
  loading :: bool
  history_error :: "string option"

definition limit :: int where
  "limit = 20"

definition totalPages :: "history_state \<Rightarrow> int" where
  "totalPages s = \<lceil>real_of_int (total s) / real_of_int limit\<rceil>"

text \<open>The state of the \<open>useState\<close> calls, before the first fetch.\<close>

definition initial_history :: history_state where
  "initial_history =
     \<lparr>history_quizzes = [], total = 0, page = 1, search = [], loading = False,
      history_error = None\<rparr>"

text \<open>
  What \<open>quizAPI.getQuizHistory\<close> comes back with: the data of the response (\<open>quizzes\<close> and
  \<open>total\<close>), or a thrown error with its \<open>message\<close>, if it has one. The server decides it.
\<close>

datatype fetch_result =
    FetchData "json list" int
  | FetchError "string option"

text \<open>
  \<open>fetchQuizzes\<close>, from its start to its \<open>finally\<close>: on data it stores the quizzes and the
  total; on an error it stores the message (\<open>err.message || 'Failed to fetch quiz history'\<close>)
  and leaves quizzes and total as they were. While it runs, \<open>loading\<close> is true and the
  table with its buttons is replaced by the spinner, so no click falls in between.
\<close>

definition fetchQuizzes :: "fetch_result \<Rightarrow> history_state \<Rightarrow> history_state" where
  "fetchQuizzes response s =
     (case response of
        FetchData data_quizzes data_total \<Rightarrow>
          s\<lparr>history_quizzes := data_quizzes, total := data_total, history_error := None,
            loading := False\<rparr>
      | FetchError message \<Rightarrow>
          s\<lparr>history_error :=
              Some (case message of
                      None \<Rightarrow> ''Failed to fetch quiz history''
                    | Some m \<Rightarrow> if m \<noteq> [] then m else ''Failed to fetch quiz history''),
            loading := False\<rparr>)"

text \<open>
  \<open>useEffect(() => { fetchQuizzes(); }, [page, search])\<close>: the effect runs after the first
  render and after every render in which \<open>page\<close> or \<open>search\<close> differs from before.
\<close>

definition mount :: "fetch_result \<Rightarrow> history_state" where
  "mount response = fetchQuizzes response initial_history"

definition run_effect :: "fetch_result \<Rightarrow> history_state \<Rightarrow> history_state \<Rightarrow> history_state" where
  "run_effect response before s =
     (if page s \<noteq> page before \<or> search s \<noteq> search before then fetchQuizzes response s
      else s)"

text \<open>The handlers, as written.\<close>

definition handleSearchChange :: "string \<Rightarrow> history_state \<Rightarrow> history_state" where
  "handleSearchChange v s = s\<lparr>search := v, page := 1\<rparr>"

definition onPrevious :: "history_state \<Rightarrow> history_state" where
  "onPrevious s = s\<lparr>page := max 1 (page s - 1)\<rparr>"

definition onNext :: "history_state \<Rightarrow> history_state" where
  "onNext s = s\<lparr>page := min (totalPages s) (page s + 1)\<rparr>"

text \<open>
  The pagination block is rendered in the branch that shows the table (not loading, at
  least one quiz) and under \<open>totalPages > 1\<close>.
\<close>

definition pagination_shown :: "history_state \<Rightarrow> bool" where
  "pagination_shown s = (\<not> loading s \<and> history_quizzes s \<noteq> [] \<and> totalPages s > 1)"

text \<open>
  A click reaches its handler only when the button is on the page and enabled: Previous
  is disabled on page 1 and Next on the last page. The handler's new page then triggers
  the effect, whose fetch ends with the given response.
\<close>

datatype click = Previous | Next

fun click_button :: "click \<Rightarrow> fetch_result \<Rightarrow> history_state \<Rightarrow> history_state" where
  "click_button Previous response s =
     (if pagination_shown s \<and> page s \<noteq> 1 then run_effect response s (onPrevious s) else s)"
| "click_button Next response s =
     (if pagination_shown s \<and> page s \<noteq> totalPages s then run_effect response s (onNext s)
      else s)"

text \<open>A sequence of clicks, each with the response to the fetch it sets off.\<close>

fun click_all :: "(click \<times> fetch_result) list \<Rightarrow> history_state \<Rightarrow> history_state" where
  "click_all [] s = s"
| "click_all (c # cs) s = click_all cs (click_button (fst c) (snd c) s)"

text \<open>Typing in the search box: the handler, then the effect.\<close>

definition change_search :: "string \<Rightarrow> fetch_result \<Rightarrow> history_state \<Rightarrow> history_state" where
  "change_search v response s = run_effect response s (handleSearchChange v s)"

text \<open>
  The states met while every fetch that succeeds reports the total \<open>n\<close>: such a state
  either holds that total with its page in range, or shows no quiz and sits on page 1 (the
  first fetch failed, or the server has nothing).
\<close>

definition steady :: "int \<Rightarrow> history_state \<Rightarrow> bool" where
  "steady n s =
     (1 \<le> page s
      \<and> ((total s = n \<and> page s \<le> max 1 \<lceil>real_of_int n / real_of_int limit\<rceil>)
           \<or> (history_quizzes s = [] \<and> page s = 1)))"

section \<open>The generate pipeline around the stages\<close>

text \<open>
  The repository's route handler, scraper and database service are planned in prose only;
  their code is not among the sources. The definitions of this section are modelled from
  the specification, and say so one by one.
\<close>

text \<open>Modelled from the spec: the kinds of extraction failure (section 4.1).\<close>

datatype extraction_kind = InvalidUrl | Unreachable | Blocked | Empty

text \<open>
  Modelled from the spec: the errors a request can end with (section 7).
\<close>

datatype pipeline_error =
    ExtractionError extraction_kind
  | GenerationError string string
  | ValidationError
  | DuplicateUrl
  | PersistenceError

text \<open>
  Modelled from the spec: the \<open>Article\<close> of its data model (the plan's scraper is to
  return the same fields).
\<close>

record article =
  article_url :: string
  article_title :: string
  fullText :: string
  sections :: "(string \<times> string) list"
  wordCount :: nat

text \<open>
  Modelled from the spec: the \<open>QuizBundle\<close> aggregate of its data model.
\<close>

record quiz_bundle =
  sourceUrl :: string
  bundle_title :: string
  summary :: string
  entities :: "(string \<times> string) list"
  bundle_questions :: "json list"
  relatedTopics :: "string list"
  createdAt :: nat

subsection \<open>Storage\<close>

text \<open>
  Modelled from the spec: a row of the parent table. The store has the four tables of the
  plan's schema (\<open>quizzes\<close>, \<open>key_entities\<close>, \<open>questions\<close>, \<open>related_topics\<close>); child
  rows carry the \<open>quiz_id\<close> of their parent.
\<close>

record quiz_row =
  quiz_id :: nat
  url :: string
  row_title :: string
  row_summary :: string
  row_created :: nat

text \<open>
  Modelled from the spec: the state of the store, one list of rows for each table and the
  next id the parent table assigns.
\<close>

record database =
  quizzes :: "quiz_row list"
  key_entities :: "(nat \<times> string \<times> string) list"
  question_rows :: "(nat \<times> json) list"
  related_topics :: "(nat \<times> string) list"
  next_id :: nat

text \<open>Modelled from the spec: the store before anything is persisted.\<close>

definition empty_database :: database where
  "empty_database =
     \<lparr>quizzes = [], key_entities = [], question_rows = [], related_topics = [], next_id = 1\<rparr>"

text \<open>
  Modelled from the spec: the writes of one persisted bundle, the parent row and the three
  child collections.
\<close>

datatype db_write =
    InsertQuiz quiz_row
  | InsertEntities "(nat \<times> string \<times> string) list"
  | InsertQuestions "(nat \<times> json) list"
  | InsertTopics "(nat \<times> string) list"

text \<open>
  Modelled from the spec: the effect of one write on the tables.
\<close>

fun apply_write :: "db_write \<Rightarrow> database \<Rightarrow> database" where
  "apply_write (InsertQuiz row) db =
     db\<lparr>quizzes := quizzes db @ [row], next_id := Suc (next_id db)\<rparr>"
| "apply_write (InsertEntities rows) db = db\<lparr>key_entities := key_entities db @ rows\<rparr>"
| "apply_write (InsertQuestions rows) db = db\<lparr>question_rows := question_rows db @ rows\<rparr>"
| "apply_write (InsertTopics rows) db = db\<lparr>related_topics := related_topics db @ rows\<rparr>"

text \<open>
  Modelled from the spec: the unique constraint on the normalized URL, which the store
  enforces on the parent row.
\<close>

fun violates_unique_url :: "db_write \<Rightarrow> database \<Rightarrow> bool" where
  "violates_unique_url (InsertQuiz row) db = (url row \<in> set (map url (quizzes db)))"
| "violates_unique_url (InsertEntities rows) db = False"
| "violates_unique_url (InsertQuestions rows) db = False"
| "violates_unique_url (InsertTopics rows) db = False"

text \<open>
  Modelled from the spec: the writes of a transaction (the plan's "create transaction ...
  commit or rollback on error"). They go, in order, to a working copy; \<open>fails k\<close> tells
  whether the store fails at step \<open>k\<close>, the commit being the step after the last write.
\<close>

fun run_writes ::
  "(nat \<Rightarrow> bool) \<Rightarrow> nat \<Rightarrow> db_write list \<Rightarrow> database \<Rightarrow> pipeline_error + database" where
  "run_writes fails k [] work = Inr work"
| "run_writes fails k (w # ws) work =
     (if violates_unique_url w work then Inl DuplicateUrl
      else if fails k then Inl PersistenceError
      else run_writes fails (Suc k) ws (apply_write w work))"

text \<open>
  Modelled from the spec: the atomic unit. The working copy becomes the committed state
  only when every write and the commit went through; on any failure it is dropped and the
  committed state stands.
\<close>

definition transaction ::
  "(nat \<Rightarrow> bool) \<Rightarrow> db_write list \<Rightarrow> database \<Rightarrow> database \<times> (pipeline_error + unit)" where
  "transaction fails writes committed =
     (case run_writes fails 0 writes committed of
        Inl e \<Rightarrow> (committed, Inl e)
      | Inr work \<Rightarrow>
          if fails (length writes) then (committed, Inl PersistenceError)
          else (work, Inr ()))"

text \<open>
  Modelled from the spec: the writes of the Persistence Coordinator, \<open>save_quiz_to_db\<close> in
  the plan (insert the parent, take its id, batch-insert entities, questions and related
  topics).
\<close>

definition bundle_writes :: "nat \<Rightarrow> quiz_bundle \<Rightarrow> db_write list" where
  "bundle_writes new_id bundle =
     [InsertQuiz \<lparr>quiz_id = new_id, url = sourceUrl bundle, row_title = bundle_title bundle,
                  row_summary = summary bundle, row_created = createdAt bundle\<rparr>,
      InsertEntities (map (\<lambda>entity. (new_id, entity)) (entities bundle)),
      InsertQuestions (map (\<lambda>q. (new_id, q)) (bundle_questions bundle)),
      InsertTopics (map (\<lambda>topic. (new_id, topic)) (relatedTopics bundle))]"

text \<open>
  Modelled from the spec: \<open>persist(bundle)\<close>, returning the bundle with the id it was given.
\<close>

definition save_quiz_to_db ::
  "(nat \<Rightarrow> bool) \<Rightarrow> database \<Rightarrow> quiz_bundle
     \<Rightarrow> database \<times> (pipeline_error + nat \<times> quiz_bundle)" where
  "save_quiz_to_db fails db bundle =
     (case transaction fails (bundle_writes (next_id db) bundle) db of
        (db', Inl e) \<Rightarrow> (db', Inl e)
      | (db', Inr u) \<Rightarrow> (db', Inr (next_id db, bundle)))"

text \<open>
  Modelled from the spec: the Duplicate-URL Resolver (\<open>check_duplicate_url\<close> in the plan),
  an exact string match of the key against the stored URLs.
\<close>

definition find_by_normalized_url :: "database \<Rightarrow> string \<Rightarrow> quiz_row option" where
  "find_by_normalized_url db key = find (\<lambda>row. url row = key) (quizzes db)"

text \<open>
  Modelled from the spec: the bundle read back for a stored row, with the child rows of its
  id.
\<close>

definition stored_bundle :: "database \<Rightarrow> quiz_row \<Rightarrow> quiz_bundle" where
  "stored_bundle db row =
     \<lparr>sourceUrl = url row, bundle_title = row_title row, summary = row_summary row,
      entities = map snd (filter (\<lambda>r. fst r = quiz_id row) (key_entities db)),
      bundle_questions = map snd (filter (\<lambda>r. fst r = quiz_id row) (question_rows db)),
      relatedTopics = map snd (filter (\<lambda>r. fst r = quiz_id row) (related_topics db)),
      createdAt = row_created row\<rparr>"

subsection \<open>Extraction and the entry point\<close>

text \<open>
  Modelled from the spec: what the pipeline is given, namely the URL normalizer (scheme,
  host and path, trailing slash normalized), the fetch-and-clean step of the extractor with
  its outcome, the configured minimum word count, the generation stages with validation and
  repair, and the failures of the store.
\<close>

record environment =
  normalize_url :: "string \<Rightarrow> string"
  fetch_clean :: "string \<Rightarrow> extraction_kind + article"
  min_words :: nat
  run_stages :: "article \<Rightarrow> nat \<Rightarrow> pipeline_error + quiz_bundle"
  write_fails :: "nat \<Rightarrow> bool"

text \<open>
  Modelled from the spec: the default of the configurable minimum (the figure of the
  plan's error table and of the tip under the URL form).
\<close>

definition default_min_words :: nat where
  "default_min_words = 300"

text \<open>
  Modelled from the spec: the Content Extractor's gate on the cleaned word count (step 4
  of the plan's process flow).
\<close>

definition extract_article :: "environment \<Rightarrow> string \<Rightarrow> pipeline_error + article" where
  "extract_article env u =
     (case fetch_clean env u of
        Inl kind \<Rightarrow> Inl (ExtractionError kind)
      | Inr a \<Rightarrow>
          if wordCount a < min_words env then Inl (ExtractionError Empty) else Inr a)"

text \<open>
  Modelled from the spec: one generation run; an extraction error aborts it.
\<close>

definition run_pipeline :: "environment \<Rightarrow> string \<Rightarrow> nat \<Rightarrow> pipeline_error + quiz_bundle" where
  "run_pipeline env u n =
     (case extract_article env u of
        Inl e \<Rightarrow> Inl e
      | Inr a \<Rightarrow> run_stages env a n)"

text \<open>
  Modelled from the spec: the inbound \<open>generate(url, numQuestions)\<close>. The resolver comes
  first and a hit returns the stored bundle without running anything else; otherwise the
  run, then persistence under the normalized URL.
\<close>

definition generate ::
  "environment \<Rightarrow> database \<Rightarrow> string \<Rightarrow> nat
     \<Rightarrow> database \<times> (pipeline_error + nat \<times> quiz_bundle)" where
  "generate env db u n =
     (case find_by_normalized_url db (normalize_url env u) of
        Some row \<Rightarrow> (db, Inr (quiz_id row, stored_bundle db row))
      | None \<Rightarrow>
          (case run_pipeline env u n of
             Inl e \<Rightarrow> (db, Inl e)
           | Inr bundle \<Rightarrow>
               save_quiz_to_db (write_fails env) db
                 (bundle\<lparr>sourceUrl := normalize_url env u\<rparr>)))"

text \<open>
  Modelled from the spec: a sequence of requests, each a URL with its question count,
  served one after another.
\<close>

fun generate_all :: "environment \<Rightarrow> (string \<times> nat) list \<Rightarrow> database \<Rightarrow> database" where
  "generate_all env [] db = db"
| "generate_all env (request # requests) db =
     generate_all env requests (fst (generate env db (fst request) (snd request)))"

section \<open>Concrete inputs\<close>

text \<open>Responses and questions on which the theorems below are exercised.\<close>

definition good_question :: json where
  "good_question = JObj [(''question'', JStr ''Who wrote it?''),
     (''options'', JArr [JStr ''Ada'', JStr ''Bob'', JStr ''Cy'', JStr ''Di'']),
     (''answer'', JStr ''A''), (''difficulty'', JStr ''easy''),
     (''explanation'', JStr ''See the intro.'')]"

definition other_question :: json where
  "other_question = JObj [(''question'', JStr ''Where was it built?''),
     (''options'', JArr [JStr ''Rome'', JStr ''Oslo'', JStr ''Lima'', JStr ''Kyiv'']),
     (''answer'', JStr ''B''), (''difficulty'', JStr ''medium''),
     (''explanation'', JStr ''See the history section.'')]"

definition bad_question :: json where
  "bad_question = JObj [(''question'', JStr ''When?''),
     (''options'', JArr [JStr ''1'', JStr ''2'', JStr ''3'', JStr ''4'']),
     (''answer'', JStr ''E''), (''difficulty'', JStr ''easy''),
     (''explanation'', JStr ''See the end.'')]"

definition twin_question :: json where
  "twin_question = JObj [(''question'', JStr ''Which one?''),
     (''options'', JArr [JStr ''same'', JStr ''same'', JStr '''', JStr '''']),
     (''answer'', JStr ''C''), (''difficulty'', JStr ''hard''),
     (''explanation'', JStr ''None.'')]"

definition mixed_response :: json where
  "mixed_response = JObj [(''quiz'', JArr [good_question, bad_question])]"

definition empty_response :: json where
  "empty_response = JObj [(''quiz'', JArr [])]"

definition six_response :: json where
  "six_response = JObj [(''quiz'', JArr [good_question, good_question, good_question,
      good_question, good_question, good_question])]"

definition twin_response :: json where
  "twin_response = JObj [(''quiz'', JArr [twin_question])]"

text \<open>Language models that give the same answer at every attempt.\<close>

definition always_mixed :: "nat \<Rightarrow> int \<Rightarrow> py_error + json" where
  "always_mixed attempt num_questions = Inr mixed_response"

definition always_empty :: "nat \<Rightarrow> int \<Rightarrow> py_error + json" where
  "always_empty attempt num_questions = Inr empty_response"

definition always_six :: "nat \<Rightarrow> int \<Rightarrow> py_error + json" where
  "always_six attempt num_questions = Inr six_response"

definition always_twin :: "nat \<Rightarrow> int \<Rightarrow> py_error + json" where
  "always_twin attempt num_questions = Inr twin_response"

text \<open>
  A similarity test that holds exactly for equal texts. It agrees with the ratio of
  \<open>SequenceMatcher\<close> on the two texts used here: 1.0 for a text and itself, and below 0.8
  for \<open>Who wrote it?\<close> against \<open>Where was it built?\<close>.
\<close>

definition same_text :: "json \<Rightarrow> json \<Rightarrow> py_error + bool" where
  "same_text a b = Inr (a = b)"

text \<open>
  Lower-casing of ASCII letters, a term extractor that knows two question texts, and a
  line of article text.
\<close>

definition lower_char :: "char \<Rightarrow> char" where
  "lower_char c =
     (case c of Char b0 b1 b2 b3 b4 b5 b6 b7 \<Rightarrow>
        if (65::nat) \<le> of_char c \<and> of_char c \<le> (90::nat)
        then Char b0 b1 b2 b3 b4 True b6 b7 else c)"

definition ascii_lower :: "string \<Rightarrow> string" where
  "ascii_lower s = map lower_char s"

definition key_terms :: "json \<Rightarrow> py_error + string list" where
  "key_terms text =
     (if text = JStr ''Who wrote it?'' then Inr [''Wrote'', ''Quantum'', ''Zebra'']
      else Inr [''Ada'', ''Program''])"

definition article_line :: string where
  "article_line = ''Ada wrote the first program.''"

text \<open>
  A small world for the pipeline: a normalizer that drops one trailing slash, a web with a
  250-word stub and a 2000-word article, stages that always produce the same bundle, a store
  that never fails and one that fails at the insertion of the questions.
\<close>

definition strip_trailing_slash :: "string \<Rightarrow> string" where
  "strip_trailing_slash u = (if u \<noteq> [] \<and> last u = CHR ''/'' then butlast u else u)"

definition stub_article :: article where
  "stub_article = \<lparr>article_url = ''https://example.org/stub'', article_title = ''Stub'',
     fullText = ''A short page.'', sections = [], wordCount = 250\<rparr>"

definition long_article :: article where
  "long_article = \<lparr>article_url = ''https://example.org/long'', article_title = ''Long'',
     fullText = ''A long page.'', sections = [(''History'', ''It began.'')], wordCount = 2000\<rparr>"

definition demo_bundle :: quiz_bundle where
  "demo_bundle = \<lparr>sourceUrl = ''https://example.org/long/'', bundle_title = ''Long'',
     summary = ''About a long page.'', entities = [(''people'', ''Ada'')],
     bundle_questions = [good_question, other_question], relatedTopics = [''Pages''],
     createdAt = 7\<rparr>"

definition demo_fetch :: "string \<Rightarrow> extraction_kind + article" where
  "demo_fetch u =
     (if u = ''https://example.org/stub'' then Inr stub_article
      else if u = ''https://example.org/long/'' then Inr long_article
      else Inl Unreachable)"

definition demo_stages :: "article \<Rightarrow> nat \<Rightarrow> pipeline_error + quiz_bundle" where
  "demo_stages a n = Inr demo_bundle"

definition never_fails :: "nat \<Rightarrow> bool" where
  "never_fails k = False"

definition fails_at_questions :: "nat \<Rightarrow> bool" where
  "fails_at_questions k = (k = 2)"

definition demo_env :: environment where
  "demo_env = \<lparr>normalize_url = strip_trailing_slash, fetch_clean = demo_fetch,
     min_words = default_min_words, run_stages = demo_stages, write_fails = never_fails\<rparr>"

text \<open>
  Server responses for the history view: a full page of twenty rows out of 45 quizzes, an
  empty third page once only 21 quizzes are left, and an empty history.
\<close>

definition history_row :: json where
  "history_row = JObj [(''id'', JNum 1), (''url'', JStr ''https://example.org/long''),
     (''title'', JStr ''Long''), (''created_at'', JStr ''2025-01-15T10:30:00Z''),
     (''question_count'', JNum 8)]"

definition page_of_45 :: fetch_result where
  "page_of_45 = FetchData (replicate 20 history_row) 45"

definition last_page_of_45 :: fetch_result where
  "last_page_of_45 = FetchData (replicate 5 history_row) 45"

definition beyond_21 :: fetch_result where
  "beyond_21 = FetchData [] 21"

definition nothing_stored :: fetch_result where
  "nothing_stored = FetchData [] 0"

text \<open>
  A site whose articles differ in the query string only: the normalized URL (scheme, host
  and path) is the same for a 2000-word article and a 250-word one.
\<close>

definition scheme_host_path :: "string \<Rightarrow> string" where
  "scheme_host_path u = strip_trailing_slash (takeWhile (\<lambda>c. c \<noteq> CHR ''?'') u)"

definition query_fetch :: "string \<Rightarrow> extraction_kind + article" where
  "query_fetch u =
     (if u = ''https://example.org/article?id=1'' then Inr long_article
      else if u = ''https://example.org/article?id=2'' then Inr stub_article
      else Inl Unreachable)"

definition query_env :: environment where
  "query_env = \<lparr>normalize_url = scheme_host_path, fetch_clean = query_fetch,
     min_words = default_min_words, run_stages = demo_stages, write_fails = never_fails\<rparr>"

section \<open>What \<open>generate_quiz\<close> returns\<close>

lemma retry_quiz_three:
  "retry_quiz v invoke n [0, 1, 2] =
     (case attempt_quiz v invoke n 0 of Inr r \<Rightarrow> Inr r
      | Inl e0 \<Rightarrow> (case attempt_quiz v invoke n 1 of Inr r \<Rightarrow> Inr r
      | Inl e1 \<Rightarrow> attempt_quiz v invoke n 2))"
  by (simp split: sum.splits)

lemma attempt_quiz_Inr:
  "attempt_quiz v invoke n k = Inr r \<Longrightarrow> invoke k n = Inr r \<and> (\<exists>ok. v r = Inr ok)"
  by (auto simp: attempt_quiz_def split: sum.splits)

lemma generate_quiz_Inr:
  assumes "generate_quiz v invoke n = Inr r"
  shows "\<exists>k<3. attempt_quiz v invoke n k = Inr r
           \<and> (\<forall>j<k. \<exists>e. attempt_quiz v invoke n j = Inl e)"
proof -
  from assms have c: "(case attempt_quiz v invoke n 0 of Inr r \<Rightarrow> Inr r
      | Inl e0 \<Rightarrow> (case attempt_quiz v invoke n 1 of Inr r \<Rightarrow> Inr r
      | Inl e1 \<Rightarrow> attempt_quiz v invoke n 2)) = Inr r"
    by (simp only: generate_quiz_def retry_quiz_three)
  show ?thesis
  proof (cases "attempt_quiz v invoke n 0")
    case (Inr r0)
    with c have "attempt_quiz v invoke n 0 = Inr r" by simp
    then show ?thesis by (intro exI[of _ 0]) simp
  next
    case e0: (Inl e0)
    show ?thesis
    proof (cases "attempt_quiz v invoke n 1")
      case (Inr r1)
      with c e0 have "attempt_quiz v invoke n 1 = Inr r" by simp
      with e0 show ?thesis by (intro exI[of _ 1]) (simp add: less_Suc_eq)
    next
      case e1: (Inl e1)
      with c e0 have "attempt_quiz v invoke n 2 = Inr r" by simp
      with e0 e1 show ?thesis
        by (intro exI[of _ 2]) (auto simp: less_Suc_eq numeral_2_eq_2)
    qed
  qed
qed

lemma validate_good_question: "validate_question i good_question = Inr ()"
  by (simp add: validate_question_def good_question_def quiz_fields_def answer_letters_def
      difficulty_levels_def)

lemma validate_bad_question:
  "validate_question i bad_question = Inl (ValueError (InvalidAnswer i (JStr ''E'')))"
  by (simp add: validate_question_def bad_question_def quiz_fields_def answer_letters_def
      difficulty_levels_def)

lemma validate_twin_question: "validate_question i twin_question = Inr ()"
  by (simp add: validate_question_def twin_question_def quiz_fields_def answer_letters_def
      difficulty_levels_def)

lemma validate_mixed_response:
  "validate_quiz_json mixed_response = Inl (ValueError (InvalidAnswer 1 (JStr ''E'')))"
  by (simp add: validate_quiz_json_def mixed_response_def validate_good_question
      validate_bad_question)

lemma validate_empty_response: "validate_quiz_json empty_response = Inr True"
  by (simp add: validate_quiz_json_def empty_response_def)

lemma validate_six_response: "validate_quiz_json six_response = Inr True"
  by (simp add: validate_quiz_json_def six_response_def validate_good_question)

lemma validate_twin_response: "validate_quiz_json twin_response = Inr True"
  by (simp add: validate_quiz_json_def twin_response_def validate_twin_question)

lemma generate_six: "generate_quiz validate_quiz_json always_six 5 = Inr six_response"
  by (simp add: generate_quiz_def retry_quiz_three attempt_quiz_def always_six_def
      validate_six_response)

text \<open>
  C1, as the plan's code has it. A run makes at most three attempts and succeeds with the
  response of the first attempt that parses and passes the structure check; that response
  is handed back as the model gave it, with every question it holds. When the first two
  attempts fail and the third response does not pass the check, the run fails with the
  error of that check: nothing is dropped to rescue it.
\<close>

theorem generate_quiz_first_valid:
  "(generate_quiz v invoke n = Inr r \<longrightarrow>
      (\<exists>k<3. invoke k n = Inr r \<and> (\<exists>ok. v r = Inr ok)
         \<and> (\<forall>j<k. \<exists>e. attempt_quiz v invoke n j = Inl e)))
   \<and> ((\<exists>e0. attempt_quiz v invoke n 0 = Inl e0) \<and> (\<exists>e1. attempt_quiz v invoke n 1 = Inl e1)
         \<and> invoke 2 n = Inr r2 \<and> v r2 = Inl e
       \<longrightarrow> generate_quiz v invoke n = Inl e)"
proof (intro conjI impI)
  assume "generate_quiz v invoke n = Inr r"
  from generate_quiz_Inr[OF this] obtain k where
    "k < 3" "attempt_quiz v invoke n k = Inr r"
    "\<forall>j<k. \<exists>e. attempt_quiz v invoke n j = Inl e"
    by blast
  then show "\<exists>k<3. invoke k n = Inr r \<and> (\<exists>ok. v r = Inr ok)
         \<and> (\<forall>j<k. \<exists>e. attempt_quiz v invoke n j = Inl e)"
    using attempt_quiz_Inr by blast
next
  assume a: "(\<exists>e0. attempt_quiz v invoke n 0 = Inl e0)
         \<and> (\<exists>e1. attempt_quiz v invoke n 1 = Inl e1)
         \<and> invoke 2 n = Inr r2 \<and> v r2 = Inl e"
  then have "attempt_quiz v invoke n 2 = Inl e" by (simp add: attempt_quiz_def)
  with a show "generate_quiz v invoke n = Inl e"
    by (auto simp only: generate_quiz_def retry_quiz_three sum.case)
qed

theorem generate_quiz_first_valid_witness:
  "generate_quiz validate_quiz_json always_six 5 = Inr six_response
   \<and> (\<exists>k<3. always_six k 5 = Inr six_response
         \<and> (\<exists>ok. validate_quiz_json six_response = Inr ok)
         \<and> (\<forall>j<k. \<exists>e. attempt_quiz validate_quiz_json always_six 5 j = Inl e))
   \<and> generate_quiz validate_quiz_json always_mixed 5
       = Inl (ValueError (InvalidAnswer 1 (JStr ''E'')))"
proof -
  have a: "attempt_quiz validate_quiz_json always_mixed 5 k
             = Inl (ValueError (InvalidAnswer 1 (JStr ''E'')))" for k
    by (simp add: attempt_quiz_def always_mixed_def validate_mixed_response)
  have i: "always_mixed 2 5 = Inr mixed_response" by (simp add: always_mixed_def)
  from generate_quiz_first_valid[of validate_quiz_json always_six 5 six_response
      mixed_response "ValueError (InvalidAnswer 1 (JStr ''E''))"] generate_six
  have 1: "\<exists>k<3. always_six k 5 = Inr six_response
         \<and> (\<exists>ok. validate_quiz_json six_response = Inr ok)
         \<and> (\<forall>j<k. \<exists>e. attempt_quiz validate_quiz_json always_six 5 j = Inl e)"
    by blast
  from generate_quiz_first_valid[of validate_quiz_json always_mixed 5 mixed_response
      mixed_response "ValueError (InvalidAnswer 1 (JStr ''E''))"] a i validate_mixed_response
  have 2: "generate_quiz validate_quiz_json always_mixed 5
             = Inl (ValueError (InvalidAnswer 1 (JStr ''E'')))"
    by blast
  from generate_six 1 2 show ?thesis by blast
qed

text \<open>
  Where C1 as stated fails, for five requested questions. A third attempt with one valid
  and one invalid question is not repaired: the run raises. A response with an empty quiz
  passes the check and is returned with no question at all. A response with six valid
  questions is returned whole.
\<close>

theorem generate_quiz_no_repair_counterexample:
  "generate_quiz validate_quiz_json always_mixed 5
     = Inl (ValueError (InvalidAnswer 1 (JStr ''E'')))
   \<and> py_getitem mixed_response ''quiz'' = Inr (JArr [good_question, bad_question])
   \<and> validate_question 0 good_question = Inr ()
   \<and> generate_quiz validate_quiz_json always_empty 5 = Inr empty_response
   \<and> py_getitem empty_response ''quiz'' = Inr (JArr [])
   \<and> generate_quiz validate_quiz_json always_six 5 = Inr six_response
   \<and> py_getitem six_response ''quiz''
       = Inr (JArr [good_question, good_question, good_question,
                    good_question, good_question, good_question])"
  by (simp add: generate_quiz_def retry_quiz_three attempt_quiz_def always_mixed_def
        always_empty_def always_six_def validate_mixed_response validate_empty_response
        validate_six_response validate_good_question)
     (simp add: mixed_response_def empty_response_def six_response_def)

section \<open>What the structure check guarantees of a returned question\<close>

lemma validate_question_ok:
  assumes "validate_question i q = Inr u"
  shows "\<exists>opts a. py_getitem q ''options'' = Inr opts \<and> py_len opts = Inr 4
           \<and> py_getitem q ''answer'' = Inr a \<and> a \<in> set answer_letters"
  using assms unfolding validate_question_def
  by (auto split: sum.splits if_splits)

lemma validate_questions_ok:
  "validate_questions i qs = Inr u \<Longrightarrow> q \<in> set qs \<Longrightarrow> \<exists>k. validate_question k q = Inr ()"
proof (induction qs arbitrary: i)
  case Nil
  then show ?case by simp
next
  case (Cons x xs)
  then show ?case by (auto split: sum.splits)
qed

lemma validate_quiz_json_ok:
  assumes "validate_quiz_json response = Inr ok"
  shows "\<exists>quiz qs. py_getitem response ''quiz'' = Inr quiz \<and> py_iter quiz = Inr qs
           \<and> validate_questions 0 qs = Inr ()"
  using assms unfolding validate_quiz_json_def
  by (auto split: sum.splits if_splits)

text \<open>
  C2, as the plan's code has it. Every question of a response that \<open>generate_quiz\<close>
  returns under \<open>validate_quiz_json\<close> has an \<open>options\<close> entry of length exactly 4 and an
  \<open>answer\<close> that is one of the letters A, B, C, D, so the letter names one of the four
  positions. The check looks no further into the options.
\<close>

theorem returned_questions_checked:
  assumes "generate_quiz validate_quiz_json invoke n = Inr r"
  shows "\<exists>quiz qs. py_getitem r ''quiz'' = Inr quiz \<and> py_iter quiz = Inr qs
           \<and> (\<forall>q\<in>set qs. \<exists>opts a. py_getitem q ''options'' = Inr opts
                  \<and> py_len opts = Inr 4
                  \<and> py_getitem q ''answer'' = Inr a
                  \<and> a \<in> set [JStr ''A'', JStr ''B'', JStr ''C'', JStr ''D''])"
proof -
  from generate_quiz_Inr[OF assms] obtain k where
    "attempt_quiz validate_quiz_json invoke n k = Inr r"
    by blast
  then obtain ok where "validate_quiz_json r = Inr ok"
    using attempt_quiz_Inr by blast
  from validate_quiz_json_ok[OF this] obtain quiz qs where
    q: "py_getitem r ''quiz'' = Inr quiz" "py_iter quiz = Inr qs"
       "validate_questions 0 qs = Inr ()"
    by blast
  have "\<exists>opts a. py_getitem q ''options'' = Inr opts \<and> py_len opts = Inr 4
          \<and> py_getitem q ''answer'' = Inr a
          \<and> a \<in> set [JStr ''A'', JStr ''B'', JStr ''C'', JStr ''D'']"
    if "q \<in> set qs" for q
  proof -
    from validate_questions_ok[OF q(3) that] obtain j where
      "validate_question j q = Inr ()" ..
    from validate_question_ok[OF this] show ?thesis by (simp only: answer_letters_def)
  qed
  with q(1,2) show ?thesis by blast
qed

theorem returned_questions_checked_witness:
  "\<exists>quiz qs. py_getitem six_response ''quiz'' = Inr quiz \<and> py_iter quiz = Inr qs
           \<and> (\<forall>q\<in>set qs. \<exists>opts a. py_getitem q ''options'' = Inr opts
                  \<and> py_len opts = Inr 4
                  \<and> py_getitem q ''answer'' = Inr a
                  \<and> a \<in> set [JStr ''A'', JStr ''B'', JStr ''C'', JStr ''D''])"
  using returned_questions_checked[OF generate_six] .

text \<open>
  Where C2 as stated fails: a question whose first two options are the same text and whose
  answer C names an empty option passes the check and is returned.
\<close>

theorem returned_options_counterexample:
  "generate_quiz validate_quiz_json always_twin 5 = Inr twin_response
   \<and> py_getitem twin_response ''quiz'' = Inr (JArr [twin_question])
   \<and> py_getitem twin_question ''answer'' = Inr (JStr ''C'')
   \<and> py_getitem twin_question ''options''
       = Inr (JArr [JStr ''same'', JStr ''same'', JStr '''', JStr ''''])
   \<and> [JStr ''same'', JStr ''same'', JStr '''', JStr ''''] ! 2 = JStr ''''
   \<and> \<not> distinct [JStr ''same'', JStr ''same'', JStr '''', JStr '''']"
  by (simp add: generate_quiz_def retry_quiz_three attempt_quiz_def always_twin_def
        validate_twin_response)
     (simp add: twin_response_def twin_question_def)

section \<open>Duplicate detection on repeated questions\<close>

lemma dup_outer_step:
  "i < length questions \<Longrightarrow>
   dup_inner similar i (questions ! i) (Suc i) (drop (Suc i) questions) lg questions = (lg', Inr questions')
   \<Longrightarrow> dup_outer similar i lg questions = dup_outer similar (Suc i) lg' questions'"
  by (subst dup_outer.simps) simp

lemma dup_outer_raise:
  "i < length questions \<Longrightarrow>
   dup_inner similar i (questions ! i) (Suc i) (drop (Suc i) questions) lg questions = (lg', Inl e)
   \<Longrightarrow> dup_outer similar i lg questions = (lg', Inl e)"
  by (subst dup_outer.simps) simp

lemma dup_outer_stop:
  "\<not> i < length questions \<Longrightarrow> dup_outer similar i lg questions = (lg, Inr questions)"
  by (subst dup_outer.simps) simp

lemma three_then_one:
  assumes aa: "question_texts_similar similar qa qa = Inr True"
    and ab: "question_texts_similar similar qa qb = Inr False"
  shows "check_duplicate_questions similar lg [qa, qa, qa, qb]
           = (lg @ [VerySimilarWarning 0 1, VerySimilarWarning 0 2], Inr [qa, qa])"
proof -
  have 0: "dup_inner similar 0 ([qa, qa, qa, qb] ! 0) (Suc 0) (drop (Suc 0) [qa, qa, qa, qb]) lg [qa, qa, qa, qb]
      = (lg @ [VerySimilarWarning 0 1, VerySimilarWarning 0 2], Inr [qa, qa])"
    by (simp add: aa ab py_pop_def)
  have 1: "dup_inner similar 1 ([qa, qa] ! 1) (Suc 1) (drop (Suc 1) [qa, qa]) l [qa, qa]
      = (l, Inr [qa, qa])" for l
    by simp
  have "dup_outer similar 0 lg [qa, qa, qa, qb]
      = dup_outer similar (Suc 0) (lg @ [VerySimilarWarning 0 1, VerySimilarWarning 0 2]) [qa, qa]"
    by (rule dup_outer_step[OF _ 0]) simp
  also have "\<dots> = dup_outer similar (Suc 1) (lg @ [VerySimilarWarning 0 1, VerySimilarWarning 0 2]) [qa, qa]"
    using dup_outer_step[OF _ 1] by simp
  also have "\<dots> = (lg @ [VerySimilarWarning 0 1, VerySimilarWarning 0 2], Inr [qa, qa])"
    by (rule dup_outer_stop) simp
  finally show ?thesis by (simp only: check_duplicate_questions_def)
qed

lemma three_alike:
  assumes aa: "question_texts_similar similar qa qa = Inr True"
  shows "check_duplicate_questions similar lg [qa, qa, qa]
           = (lg @ [VerySimilarWarning 0 1, VerySimilarWarning 0 2], Inl IndexError)"
proof -
  have 0: "dup_inner similar 0 ([qa, qa, qa] ! 0) (Suc 0) (drop (Suc 0) [qa, qa, qa]) lg [qa, qa, qa]
      = (lg @ [VerySimilarWarning 0 1, VerySimilarWarning 0 2], Inl IndexError)"
    by (simp add: aa py_pop_def)
  have "dup_outer similar 0 lg [qa, qa, qa]
      = (lg @ [VerySimilarWarning 0 1, VerySimilarWarning 0 2], Inl IndexError)"
    by (rule dup_outer_raise[OF _ 0]) simp
  then show ?thesis by (simp only: check_duplicate_questions_def)
qed

lemma two_alike:
  assumes aa: "question_texts_similar similar qa qa = Inr True"
  shows "check_duplicate_questions similar lg [qa, qa] = (lg @ [VerySimilarWarning 0 1], Inr [qa])"
proof -
  have 0: "dup_inner similar 0 ([qa, qa] ! 0) (Suc 0) (drop (Suc 0) [qa, qa]) lg [qa, qa]
      = (lg @ [VerySimilarWarning 0 1], Inr [qa])"
    by (simp add: aa py_pop_def)
  have "dup_outer similar 0 lg [qa, qa] = dup_outer similar (Suc 0) (lg @ [VerySimilarWarning 0 1]) [qa]"
    by (rule dup_outer_step[OF _ 0]) simp
  also have "\<dots> = (lg @ [VerySimilarWarning 0 1], Inr [qa])"
    by (rule dup_outer_stop) simp
  finally show ?thesis by (simp only: check_duplicate_questions_def)
qed

lemma similar_texts:
  "py_getitem q1 ''question'' = Inr a \<Longrightarrow> py_getitem q2 ''question'' = Inr b
   \<Longrightarrow> question_texts_similar similar q1 q2 = similar a b"
  by (simp add: question_texts_similar_def)

text \<open>
  C3 on the plan's code. Take a question \<open>qa\<close> three times, followed by a different
  question \<open>qb\<close>, under any similarity test that rates the text of \<open>qa\<close> similar to
  itself and not to that of \<open>qb\<close>. The first \<open>pop\<close> shifts the list under the
  indices of the slice, so the second \<open>pop\<close> removes \<open>qb\<close>, which resembles nothing, and
  a copy of \<open>qa\<close> stays. Without the trailing \<open>qb\<close> the second \<open>pop\<close> is out of range
  and the function raises \<open>IndexError\<close>.
\<close>

theorem check_duplicate_questions_stale_index:
  assumes "py_getitem qa ''question'' = Inr a" and "py_getitem qb ''question'' = Inr b"
    and "similar a a = Inr True" and "similar a b = Inr False"
  shows "snd (check_duplicate_questions similar lg [qa, qa, qa, qb]) = Inr [qa, qa]
         \<and> snd (check_duplicate_questions similar lg [qa, qa, qa]) = Inl IndexError"
proof -
  have aa: "question_texts_similar similar qa qa = Inr True"
    using assms by (simp add: similar_texts)
  have ab: "question_texts_similar similar qa qb = Inr False"
    using assms by (simp add: similar_texts)
  show ?thesis by (simp add: three_then_one[OF aa ab] three_alike[OF aa])
qed

theorem check_duplicate_questions_stale_index_witness:
  "snd (check_duplicate_questions same_text []
          [good_question, good_question, good_question, other_question])
     = Inr [good_question, good_question]
   \<and> snd (check_duplicate_questions same_text [] [good_question, good_question, good_question])
     = Inl IndexError"
proof -
  have 1: "py_getitem good_question ''question'' = Inr (JStr ''Who wrote it?'')"
    by (simp add: good_question_def)
  have 2: "py_getitem other_question ''question'' = Inr (JStr ''Where was it built?'')"
    by (simp add: other_question_def)
  have 3: "same_text (JStr ''Who wrote it?'') (JStr ''Who wrote it?'') = Inr True"
    by (simp add: same_text_def)
  have 4: "same_text (JStr ''Who wrote it?'') (JStr ''Where was it built?'') = Inr False"
    by (simp add: same_text_def)
  show ?thesis
    by (rule check_duplicate_questions_stale_index
          [where similar = same_text and lg = "[]", OF 1 2 3 4])
qed

text \<open>
  C4 on the plan's code. On the same list the first pass leaves two copies of \<open>qa\<close>;
  a second pass over that result removes one more, so the second pass does not return
  what it was given.
\<close>

theorem check_duplicate_questions_second_pass:
  assumes "py_getitem qa ''question'' = Inr a" and "py_getitem qb ''question'' = Inr b"
    and "similar a a = Inr True" and "similar a b = Inr False"
  shows "\<exists>once twice. snd (check_duplicate_questions similar lg [qa, qa, qa, qb]) = Inr once
           \<and> snd (check_duplicate_questions similar lg' once) = Inr twice
           \<and> once = [qa, qa] \<and> twice = [qa] \<and> twice \<noteq> once"
proof -
  have aa: "question_texts_similar similar qa qa = Inr True"
    using assms by (simp add: similar_texts)
  have ab: "question_texts_similar similar qa qb = Inr False"
    using assms by (simp add: similar_texts)
  show ?thesis by (simp add: three_then_one[OF aa ab] two_alike[OF aa])
qed

theorem check_duplicate_questions_second_pass_witness:
  "snd (check_duplicate_questions same_text []
          [good_question, good_question, good_question, other_question])
     = Inr [good_question, good_question]
   \<and> snd (check_duplicate_questions same_text [] [good_question, good_question])
     = Inr [good_question]"
proof -
  have 1: "py_getitem good_question ''question'' = Inr (JStr ''Who wrote it?'')"
    by (simp add: good_question_def)
  have 2: "py_getitem other_question ''question'' = Inr (JStr ''Where was it built?'')"
    by (simp add: other_question_def)
  have 3: "same_text (JStr ''Who wrote it?'') (JStr ''Who wrote it?'') = Inr True"
    by (simp add: same_text_def)
  have 4: "same_text (JStr ''Who wrote it?'') (JStr ''Where was it built?'') = Inr False"
    by (simp add: same_text_def)
  from check_duplicate_questions_second_pass
         [where similar = same_text and lg = "[]" and lg' = "[]", OF 1 2 3 4]
  show ?thesis by auto
qed

section \<open>The grounding heuristic\<close>

lemma grounding_never_rejects:
  "snd (validate_question_grounding extract_key_terms lower lg question article) \<noteq> Inr False"
  by (simp add: validate_question_grounding_def Let_def split: sum.splits)

text \<open>
  C8, as the plan's code has it. When fewer than half of a question's key terms occur,
  ignoring case, in the article text, \<open>validate_question_grounding\<close> writes one warning
  naming the question to the log and returns \<open>True\<close>. The value it returns never tells a
  flagged question from another: for any question and text it is \<open>True\<close> or an exception,
  never \<open>False\<close>. So the flag reaches the caller through the log alone, a low score is no
  failure, and a set of questions filtered by the function's verdict loses none of them.
\<close>

theorem low_grounding_logged_only:
  assumes "py_getitem question ''question'' = Inr text"
    and "extract_key_terms text = Inr terms" and "terms \<noteq> []"
    and "real (length (filter (\<lambda>t. str_contains (lower t) (lower article)) terms))
           / real (length terms) < 0.5"
  shows "validate_question_grounding extract_key_terms lower lg question article
           = (lg @ [LowGroundingWarning text], Inr True)
         \<and> (\<forall>lg' question' article'.
               snd (validate_question_grounding extract_key_terms lower lg' question' article')
                 \<noteq> Inr False)
         \<and> (\<forall>qs. filter (\<lambda>q. snd (validate_question_grounding extract_key_terms lower lg q
                                      article) \<noteq> Inr False) qs = qs)"
proof -
  have 1: "validate_question_grounding extract_key_terms lower lg question article
             = (lg @ [LowGroundingWarning text], Inr True)"
    using assms by (simp add: validate_question_grounding_def)
  have 2: "filter (\<lambda>q. snd (validate_question_grounding extract_key_terms lower lg q
                                 article) \<noteq> Inr False) qs = qs" for qs
    by (simp add: grounding_never_rejects)
  from 1 2 grounding_never_rejects show ?thesis by blast
qed

lemma flagged_question_terms:
  "real (length (filter (\<lambda>t. str_contains (ascii_lower t) (ascii_lower article_line))
                   [''Wrote'', ''Quantum'', ''Zebra'']))
     / real (length [''Wrote'', ''Quantum'', ''Zebra'']) < 0.5"
proof -
  have w: "str_contains (ascii_lower ''Wrote'') (ascii_lower article_line)"
    by (simp add: ascii_lower_def lower_char_def article_line_def)
  have q: "\<not> str_contains (ascii_lower ''Quantum'') (ascii_lower article_line)"
    by (simp add: ascii_lower_def lower_char_def article_line_def)
  have z: "\<not> str_contains (ascii_lower ''Zebra'') (ascii_lower article_line)"
    by (simp add: ascii_lower_def lower_char_def article_line_def)
  show ?thesis using w q z by simp
qed

lemma grounded_question_terms:
  "str_contains (ascii_lower ''Ada'') (ascii_lower article_line)
   \<and> str_contains (ascii_lower ''Program'') (ascii_lower article_line)"
  by (simp add: ascii_lower_def lower_char_def article_line_def)

theorem low_grounding_logged_only_witness:
  "validate_question_grounding key_terms ascii_lower [] good_question article_line
     = ([LowGroundingWarning (JStr ''Who wrote it?'')], Inr True)"
proof -
  have 1: "py_getitem good_question ''question'' = Inr (JStr ''Who wrote it?'')"
    by (simp add: good_question_def)
  have 2: "key_terms (JStr ''Who wrote it?'') = Inr [''Wrote'', ''Quantum'', ''Zebra'']"
    by (simp add: key_terms_def)
  from low_grounding_logged_only
         [where extract_key_terms = key_terms and lower = ascii_lower and lg = "[]",
          OF 1 2 _ flagged_question_terms]
  show ?thesis by simp
qed

text \<open>
  Where C8 as stated fails. Of two questions checked against the same text, one has a third
  of its terms in the text and the other all of them. The first is flagged and the second
  is not, yet the function returns the same value for both: the only trace of the flag is
  the line in the log.
\<close>

theorem grounding_flag_not_returned_counterexample:
  "snd (validate_question_grounding key_terms ascii_lower [] good_question article_line)
     = Inr True
   \<and> snd (validate_question_grounding key_terms ascii_lower [] other_question article_line)
     = Inr True
   \<and> fst (validate_question_grounding key_terms ascii_lower [] good_question article_line)
     = [LowGroundingWarning (JStr ''Who wrote it?'')]
   \<and> fst (validate_question_grounding key_terms ascii_lower [] other_question article_line)
     = []"
proof -
  have g: "validate_question_grounding key_terms ascii_lower [] good_question article_line
             = ([LowGroundingWarning (JStr ''Who wrote it?'')], Inr True)"
    using flagged_question_terms
    by (simp add: validate_question_grounding_def good_question_def key_terms_def)
  have o: "validate_question_grounding key_terms ascii_lower [] other_question article_line
             = ([], Inr True)"
    using grounded_question_terms
    by (simp add: validate_question_grounding_def other_question_def key_terms_def)
  from g o show ?thesis by simp
qed

section \<open>The quiz display marks an option by strict equality with the answer\<close>

lemma render_option_list_length: "length (render_option_list a k xs) = length xs"
  by (induction xs arbitrary: k) simp_all

lemma render_option_list_nth:
  "i < length xs \<Longrightarrow> render_option_list a k xs ! i
     = \<lparr>letter = (65 + (k + i)) mod 65536, option_shown = xs ! i,
        isCorrect = strict_equals (xs ! i) a\<rparr>"
proof (induction xs arbitrary: k i)
  case Nil
  then show ?case by simp
next
  case (Cons x xs)
  show ?case
  proof (cases i)
    case 0
    then show ?thesis by simp
  next
    case (Suc m)
    with Cons.prems have "m < length xs" by simp
    from Cons.IH[OF this, of "Suc k"] Suc show ?thesis by simp
  qed
qed

lemma strict_equals_iff:
  "strict_equals x a \<longleftrightarrow> (a = Some x \<and> (\<forall>xs. x \<noteq> JArr xs) \<and> (\<forall>kv. x \<noteq> JObj kv))"
  by (induction x a rule: strict_equals.induct) auto

lemma strict_equals_str: "strict_equals (JStr s) a \<longleftrightarrow> a = Some (JStr s)"
  by (simp add: strict_equals_iff)

lemma render_options_array:
  assumes "js_prop question ''options'' = Inr (Some (JArr xs))"
    and "js_prop question ''answer'' = Inr answer"
  shows "render_options question = Inr (render_option_list answer 0 xs)"
  using assms by (simp add: render_options_def)

text \<open>
  C9. For a question whose \<open>options\<close> are an array, the display renders one entry per
  option, in order, and marks an entry as correct exactly when the option is strictly equal
  (\<open>===\<close>) to the question's \<open>answer\<close>. For an option that is a string this means: exactly
  when the answer is that same string. So a marked option is always the answer itself, and
  under an answer that is a letter such as \<open>A\<close> only an option whose whole text is that
  letter is marked.
\<close>

theorem isCorrect_iff_strict_equal:
  assumes "js_prop question ''options'' = Inr (Some (JArr xs))"
    and "js_prop question ''answer'' = Inr answer"
  shows "\<exists>views. render_options question = Inr views \<and> length views = length xs
           \<and> (\<forall>i<length xs. option_shown (views ! i) = xs ! i
                 \<and> (isCorrect (views ! i) \<longleftrightarrow> strict_equals (xs ! i) answer)
                 \<and> (\<forall>s. xs ! i = JStr s
                        \<longrightarrow> (isCorrect (views ! i) \<longleftrightarrow> answer = Some (JStr s)))
                 \<and> (isCorrect (views ! i) \<longrightarrow> answer = Some (xs ! i)))"
proof -
  let ?views = "render_option_list answer 0 xs"
  have r: "render_options question = Inr ?views"
    using assms by (rule render_options_array)
  have n: "length ?views = length xs" by (rule render_option_list_length)
  have "option_shown (?views ! i) = xs ! i
          \<and> (isCorrect (?views ! i) \<longleftrightarrow> strict_equals (xs ! i) answer)
          \<and> (\<forall>s. xs ! i = JStr s \<longrightarrow> (isCorrect (?views ! i) \<longleftrightarrow> answer = Some (JStr s)))
          \<and> (isCorrect (?views ! i) \<longrightarrow> answer = Some (xs ! i))" if "i < length xs" for i
    using that by (auto simp: render_option_list_nth strict_equals_str strict_equals_iff)
  with r n show ?thesis by blast
qed

theorem isCorrect_iff_strict_equal_witness:
  "\<exists>views. render_options good_question = Inr views \<and> length views = 4
     \<and> option_shown (views ! 0) = JStr ''Ada'' \<and> \<not> isCorrect (views ! 0)
     \<and> \<not> isCorrect (views ! 1) \<and> \<not> isCorrect (views ! 2) \<and> \<not> isCorrect (views ! 3)"
proof -
  have 1: "js_prop good_question ''options''
             = Inr (Some (JArr [JStr ''Ada'', JStr ''Bob'', JStr ''Cy'', JStr ''Di'']))"
    by (simp add: good_question_def)
  have 2: "js_prop good_question ''answer'' = Inr (Some (JStr ''A''))"
    by (simp add: good_question_def)
  from isCorrect_iff_strict_equal[OF 1 2] obtain views where
    v: "render_options good_question = Inr views"
       "length views = length [JStr ''Ada'', JStr ''Bob'', JStr ''Cy'', JStr ''Di'']"
       "\<forall>i<length [JStr ''Ada'', JStr ''Bob'', JStr ''Cy'', JStr ''Di''].
           option_shown (views ! i) = [JStr ''Ada'', JStr ''Bob'', JStr ''Cy'', JStr ''Di''] ! i
           \<and> (isCorrect (views ! i)
                \<longleftrightarrow> strict_equals ([JStr ''Ada'', JStr ''Bob'', JStr ''Cy'', JStr ''Di''] ! i)
                      (Some (JStr ''A'')))"
    by blast
  from v(3)[THEN spec, of 0]
  have a: "option_shown (views ! 0) = JStr ''Ada''" "\<not> isCorrect (views ! 0)"
    by simp_all
  from v(3)[THEN spec, of 1] have b: "\<not> isCorrect (views ! 1)" by simp
  from v(3)[THEN spec, of 2] have c: "\<not> isCorrect (views ! 2)" by simp
  from v(3)[THEN spec, of 3] have d: "\<not> isCorrect (views ! 3)" by simp
  from v(1,2) a b c d show ?thesis by simp
qed

section \<open>The page number of the history view\<close>

lemma fetchQuizzes_page: "page (fetchQuizzes response s) = page s"
  by (cases response) (simp_all add: fetchQuizzes_def)

lemma run_effect_page: "page (run_effect response before s) = page s"
  by (simp add: run_effect_def fetchQuizzes_page)

lemma click_button_page_ge:
  assumes "1 \<le> page s"
  shows "1 \<le> page (click_button c response s)"
  using assms
  by (cases c) (auto simp: run_effect_page onPrevious_def onNext_def pagination_shown_def)

lemma click_all_page_ge: "1 \<le> page s \<Longrightarrow> 1 \<le> page (click_all cs s)"
  by (induction cs arbitrary: s) (simp_all add: click_button_page_ge)

lemma steady_fetch:
  assumes "steady n s" and "total s = n" and "\<forall>qs t. response = FetchData qs t \<longrightarrow> t = n"
  shows "steady n (fetchQuizzes response s)"
  using assms by (cases response) (auto simp: steady_def fetchQuizzes_def)

lemma steady_click:
  assumes s: "steady n s" and r: "\<forall>qs t. response = FetchData qs t \<longrightarrow> t = n"
  shows "steady n (click_button c response s)"
proof (cases "pagination_shown s")
  case False
  then show ?thesis using s by (cases c) simp_all
next
  case True
  with s have t: "total s = n" by (auto simp: steady_def pagination_shown_def)
  then have tp: "totalPages s = \<lceil>real_of_int n / real_of_int limit\<rceil>"
    by (simp add: totalPages_def)
  have p: "steady n (onPrevious s)" "total (onPrevious s) = n"
    using s t by (auto simp: steady_def onPrevious_def)
  have x: "steady n (onNext s)" "total (onNext s) = n"
    using s t tp True by (auto simp: steady_def onNext_def pagination_shown_def)
  show ?thesis
  proof (cases c)
    case Previous
    with s p r show ?thesis by (simp add: run_effect_def steady_fetch)
  next
    case Next
    with s x r show ?thesis by (simp add: run_effect_def steady_fetch)
  qed
qed

lemma steady_click_all:
  "steady n s \<Longrightarrow> \<forall>qs t. FetchData qs t \<in> set (map snd cs) \<longrightarrow> t = n
   \<Longrightarrow> steady n (click_all cs s)"
proof (induction cs arbitrary: s)
  case Nil
  then show ?case by simp
next
  case (Cons c cs)
  from Cons.prems(2) have "\<forall>qs t. snd c = FetchData qs t \<longrightarrow> t = n" by simp
  with Cons.prems(1) have "steady n (click_button (fst c) (snd c) s)" by (rule steady_click)
  moreover from Cons.prems(2)
  have "\<forall>qs t. FetchData qs t \<in> set (map snd cs) \<longrightarrow> t = n" by simp
  ultimately show ?case using Cons.IH by simp
qed

lemma steady_mount:
  "\<forall>qs t. response = FetchData qs t \<longrightarrow> t = n \<Longrightarrow> steady n (mount response)"
  by (cases response) (auto simp: steady_def mount_def fetchQuizzes_def initial_history_def)

lemma steady_range: "steady n s \<Longrightarrow> page s \<le> max 1 (totalPages s)"
  by (auto simp: steady_def totalPages_def)

text \<open>
  C10, as the component has it. The history view opens on page 1 and fetches; each
  effective click on Previous or Next changes the page and fetches again, and each fetch
  that succeeds overwrites the total. After any sequence of clicks the page is at least 1.
  If every fetch that succeeds reports the same total, the page is also at most the larger
  of 1 and \<open>ceil(total / 20)\<close>, hence at most \<open>ceil(total / 20)\<close> when the total is positive.
  The Previous handler never yields a page below 1, the Next handler never one above the
  last page computed from the total in hand, and a change of the search term sets the page
  to 1.
\<close>

theorem page_range_under_refetch:
  "1 \<le> page (click_all cs (mount first))
   \<and> ((\<forall>qs t. FetchData qs t \<in> set (first # map snd cs) \<longrightarrow> t = n)
        \<longrightarrow> page (click_all cs (mount first)) \<le> max 1 (totalPages (click_all cs (mount first)))
            \<and> (0 < total (click_all cs (mount first))
                  \<longrightarrow> page (click_all cs (mount first))
                        \<le> totalPages (click_all cs (mount first))))
   \<and> 1 \<le> page (onPrevious s)
   \<and> page (onNext s) \<le> totalPages s
   \<and> page (handleSearchChange v s) = 1
   \<and> page (change_search v response s) = 1"
proof -
  let ?end = "click_all cs (mount first)"
  have "1 \<le> page (mount first)"
    by (simp add: mount_def fetchQuizzes_page initial_history_def)
  then have a: "1 \<le> page ?end" by (rule click_all_page_ge)
  have b: "page ?end \<le> max 1 (totalPages ?end)
             \<and> (0 < total ?end \<longrightarrow> page ?end \<le> totalPages ?end)"
    if h: "\<forall>qs t. FetchData qs t \<in> set (first # map snd cs) \<longrightarrow> t = n"
  proof -
    from h have "steady n (mount first)" by (intro steady_mount) simp
    moreover from h have "\<forall>qs t. FetchData qs t \<in> set (map snd cs) \<longrightarrow> t = n" by simp
    ultimately have "steady n ?end" by (rule steady_click_all)
    then have r: "page ?end \<le> max 1 (totalPages ?end)" by (rule steady_range)
    have "1 \<le> totalPages ?end" if "0 < total ?end"
      using that by (simp add: totalPages_def limit_def)
    with r show ?thesis by auto
  qed
  have c: "1 \<le> page (onPrevious s)" "page (onNext s) \<le> totalPages s"
    "page (handleSearchChange v s) = 1" "page (change_search v response s) = 1"
    by (simp_all add: onPrevious_def onNext_def handleSearchChange_def change_search_def
        run_effect_page)
  from a b c show ?thesis by blast
qed

lemma four_clicks_of_45:
  "click_all [(Next, page_of_45), (Next, last_page_of_45), (Next, last_page_of_45),
              (Previous, page_of_45)] (mount page_of_45)
     = \<lparr>history_quizzes = replicate 20 history_row, total = 45, page = 2, search = [],
        loading = False, history_error = None\<rparr>"
  by (simp add: mount_def fetchQuizzes_def initial_history_def page_of_45_def
      last_page_of_45_def pagination_shown_def totalPages_def limit_def onNext_def
      onPrevious_def run_effect_def)

theorem page_range_under_refetch_witness:
  "page (click_all [(Next, page_of_45), (Next, last_page_of_45), (Next, last_page_of_45),
                    (Previous, page_of_45)] (mount page_of_45)) = 2
   \<and> totalPages (click_all [(Next, page_of_45), (Next, last_page_of_45),
                    (Next, last_page_of_45), (Previous, page_of_45)] (mount page_of_45)) = 3
   \<and> 2 \<le> max 1 (3::int)"
proof -
  have h: "\<forall>qs t. FetchData qs t \<in> set (page_of_45 # map snd
             [(Next, page_of_45), (Next, last_page_of_45), (Next, last_page_of_45),
              (Previous, page_of_45)]) \<longrightarrow> t = 45"
    by (auto simp: page_of_45_def last_page_of_45_def)
  from page_range_under_refetch[of "[(Next, page_of_45), (Next, last_page_of_45),
      (Next, last_page_of_45), (Previous, page_of_45)]" page_of_45 45] h
  have "page (click_all [(Next, page_of_45), (Next, last_page_of_45), (Next, last_page_of_45),
                    (Previous, page_of_45)] (mount page_of_45))
          \<le> max 1 (totalPages (click_all [(Next, page_of_45), (Next, last_page_of_45),
                    (Next, last_page_of_45), (Previous, page_of_45)] (mount page_of_45)))"
    by blast
  then show ?thesis
    unfolding four_clicks_of_45 by (simp add: totalPages_def limit_def)
qed

text \<open>
  Where C10 as stated fails. The view opens on 45 quizzes; Next leads to page 2 and Next
  again to page 3, but by then only 21 quizzes are left: the fetch for page 3 reports a
  total of 21, that is 2 pages, and the page stays 3. And on a history with no quiz at all
  the view is on page 1 of 0.
\<close>

theorem page_beyond_last_counterexample:
  "page (click_all [(Next, page_of_45), (Next, beyond_21)] (mount page_of_45)) = 3
   \<and> total (click_all [(Next, page_of_45), (Next, beyond_21)] (mount page_of_45)) = 21
   \<and> totalPages (click_all [(Next, page_of_45), (Next, beyond_21)] (mount page_of_45)) = 2
   \<and> page (click_all [] (mount nothing_stored)) = 1
   \<and> totalPages (click_all [] (mount nothing_stored)) = 0"
  by (simp add: mount_def fetchQuizzes_def initial_history_def page_of_45_def beyond_21_def
      nothing_stored_def pagination_shown_def totalPages_def limit_def onNext_def
      run_effect_def)

section \<open>Persistence is all-or-nothing\<close>

lemma run_writes_all:
  "run_writes fails k ws work = Inr out \<Longrightarrow> out = foldl (\<lambda>db w. apply_write w db) work ws"
  by (induction ws arbitrary: k work) (auto split: if_splits)

lemma transaction_all_or_nothing:
  "transaction fails ws db = (db', r) \<Longrightarrow>
     (\<exists>e. r = Inl e \<and> db' = db) \<or> (r = Inr () \<and> db' = foldl (\<lambda>db w. apply_write w db) db ws)"
  by (auto simp: transaction_def split: sum.splits if_splits dest: run_writes_all)

lemma save_cases:
  "(\<exists>e. save_quiz_to_db fails db b = (db, Inl e))
   \<or> save_quiz_to_db fails db b
       = (foldl (\<lambda>db w. apply_write w db) db (bundle_writes (next_id db) b), Inr (next_id db, b))"
proof -
  obtain db' r where t: "transaction fails (bundle_writes (next_id db) b) db = (db', r)"
    by (cases "transaction fails (bundle_writes (next_id db) b) db")
  from transaction_all_or_nothing[OF t] t show ?thesis
    by (auto simp: save_quiz_to_db_def)
qed

lemma apply_bundle_writes:
  "foldl (\<lambda>db w. apply_write w db) db (bundle_writes i b)
     = db\<lparr>quizzes := quizzes db @ [\<lparr>quiz_id = i, url = sourceUrl b, row_title = bundle_title b,
                  row_summary = summary b, row_created = createdAt b\<rparr>],
           key_entities := key_entities db @ map (\<lambda>entity. (i, entity)) (entities b),
           question_rows := question_rows db @ map (\<lambda>q. (i, q)) (bundle_questions b),
           related_topics := related_topics db @ map (\<lambda>topic. (i, topic)) (relatedTopics b),
           next_id := Suc (next_id db)\<rparr>"
  by (simp add: bundle_writes_def)

text \<open>
  C6, on the persistence coordinator as the specification describes it. Whatever step of
  the transaction fails (the parent row, a batch of child rows, or the commit), the
  database after the call is the database before it, so no read sees a partial bundle.
  When the call succeeds, the parent row and every entity, question and related-topic row
  of the bundle have been added under the new id, and the bundle is returned with that id.
\<close>

theorem save_quiz_to_db_atomic:
  "(\<forall>db' e. save_quiz_to_db fails db b = (db', Inl e) \<longrightarrow> db' = db)
   \<and> (\<forall>db' saved. save_quiz_to_db fails db b = (db', Inr saved) \<longrightarrow>
         saved = (next_id db, b)
         \<and> quizzes db' = quizzes db @ [\<lparr>quiz_id = next_id db, url = sourceUrl b,
               row_title = bundle_title b, row_summary = summary b, row_created = createdAt b\<rparr>]
         \<and> key_entities db' = key_entities db @ map (\<lambda>entity. (next_id db, entity)) (entities b)
         \<and> question_rows db' = question_rows db @ map (\<lambda>q. (next_id db, q)) (bundle_questions b)
         \<and> related_topics db' = related_topics db @ map (\<lambda>topic. (next_id db, topic)) (relatedTopics b))"
  using save_cases[of fails db b] by (auto simp: apply_bundle_writes)

theorem save_quiz_to_db_atomic_witness:
  "save_quiz_to_db fails_at_questions empty_database demo_bundle
     = (empty_database, Inl PersistenceError)
   \<and> map url (quizzes (fst (save_quiz_to_db never_fails empty_database demo_bundle)))
       = [''https://example.org/long/'']
   \<and> question_rows (fst (save_quiz_to_db never_fails empty_database demo_bundle))
       = [(1, good_question), (1, other_question)]"
proof -
  have f: "save_quiz_to_db fails_at_questions empty_database demo_bundle
             = (empty_database, Inl PersistenceError)"
    by (simp add: save_quiz_to_db_def transaction_def bundle_writes_def fails_at_questions_def
        empty_database_def)
  have s: "snd (save_quiz_to_db never_fails empty_database demo_bundle) = Inr (1, demo_bundle)"
    by (simp add: save_quiz_to_db_def transaction_def bundle_writes_def never_fails_def
        empty_database_def)
  obtain db' where d: "save_quiz_to_db never_fails empty_database demo_bundle
      = (db', Inr (1, demo_bundle))"
    using s by (cases "save_quiz_to_db never_fails empty_database demo_bundle") simp
  from save_quiz_to_db_atomic[of never_fails empty_database demo_bundle] d
  have "quizzes db' = quizzes empty_database @ [\<lparr>quiz_id = next_id empty_database,
          url = sourceUrl demo_bundle, row_title = bundle_title demo_bundle,
          row_summary = summary demo_bundle, row_created = createdAt demo_bundle\<rparr>]"
    and "question_rows db' = question_rows empty_database
          @ map (\<lambda>q. (next_id empty_database, q)) (bundle_questions demo_bundle)"
    by blast+
  with f d show ?thesis by (simp add: empty_database_def demo_bundle_def)
qed

section \<open>One stored bundle for each normalized URL\<close>

lemma find_url_None: "find_by_normalized_url db key = None \<longleftrightarrow> key \<notin> set (map url (quizzes db))"
  by (auto simp: find_by_normalized_url_def find_None_iff)

lemma find_url_Some:
  "find_by_normalized_url db key = Some row \<Longrightarrow> row \<in> set (quizzes db) \<and> url row = key"
  by (auto simp: find_by_normalized_url_def find_Some_iff)

lemma run_writes_unique:
  "run_writes fails k (InsertQuiz row # ws) db = Inr out \<Longrightarrow> url row \<notin> set (map url (quizzes db))"
  by (auto split: if_splits)

lemma save_keeps_distinct:
  assumes "distinct (map url (quizzes db))"
  shows "distinct (map url (quizzes (fst (save_quiz_to_db fails db b))))"
proof -
  from save_cases[of fails db b] show ?thesis
  proof
    assume "\<exists>e. save_quiz_to_db fails db b = (db, Inl e)"
    with assms show ?thesis by auto
  next
    assume s: "save_quiz_to_db fails db b
       = (foldl (\<lambda>db w. apply_write w db) db (bundle_writes (next_id db) b), Inr (next_id db, b))"
    then obtain u where "transaction fails (bundle_writes (next_id db) b) db
        = (foldl (\<lambda>db w. apply_write w db) db (bundle_writes (next_id db) b), Inr u)"
      by (auto simp: save_quiz_to_db_def split: prod.splits sum.splits)
    then obtain out where "run_writes fails 0 (bundle_writes (next_id db) b) db = Inr out"
      by (auto simp: transaction_def split: sum.splits if_splits)
    then have "sourceUrl b \<notin> set (map url (quizzes db))"
      using run_writes_unique by (fastforce simp: bundle_writes_def)
    with assms s show ?thesis by (simp add: apply_bundle_writes)
  qed
qed

lemma generate_keeps_distinct:
  assumes "distinct (map url (quizzes db))"
  shows "distinct (map url (quizzes (fst (generate env db u n))))"
  using assms save_keeps_distinct
  by (auto simp: generate_def split: option.splits sum.splits)

lemma generate_all_keeps_distinct:
  "distinct (map url (quizzes db)) \<Longrightarrow> distinct (map url (quizzes (generate_all env requests db)))"
  by (induction requests arbitrary: db) (simp_all add: generate_keeps_distinct)

text \<open>
  C5, on the pipeline as the specification describes it. Starting from the empty store,
  after any sequence of generate requests no two stored bundles have the same normalized
  URL, and a single request keeps that true of any store. The resolver misses exactly when
  no stored URL is string-equal to the normalized URL of the request; when it finds a row,
  that row's URL is the normalized URL, the store is left as it is, and the stored bundle
  of that row is what the request returns.
\<close>

theorem one_bundle_per_normalized_url:
  "distinct (map url (quizzes (generate_all env requests empty_database)))
   \<and> (distinct (map url (quizzes db))
        \<longrightarrow> distinct (map url (quizzes (fst (generate env db u n)))))
   \<and> (find_by_normalized_url db (normalize_url env u) = None
        \<longleftrightarrow> normalize_url env u \<notin> set (map url (quizzes db)))
   \<and> (\<forall>row. find_by_normalized_url db (normalize_url env u) = Some row
        \<longrightarrow> row \<in> set (quizzes db) \<and> url row = normalize_url env u
            \<and> generate env db u n = (db, Inr (quiz_id row, stored_bundle db row)))"
proof -
  have "distinct (map url (quizzes empty_database))" by (simp add: empty_database_def)
  then have 1: "distinct (map url (quizzes (generate_all env requests empty_database)))"
    by (rule generate_all_keeps_distinct)
  show ?thesis using 1 generate_keeps_distinct find_url_None find_url_Some
    by (auto simp: generate_def)
qed

theorem one_bundle_per_normalized_url_witness:
  "distinct (map url (quizzes (generate_all demo_env
      [(''https://example.org/long/'', 8), (''https://example.org/long'', 8)] empty_database)))
   \<and> map url (quizzes (generate_all demo_env
      [(''https://example.org/long/'', 8), (''https://example.org/long'', 8)] empty_database))
       = [''https://example.org/long'']"
proof -
  have "map url (quizzes (generate_all demo_env
      [(''https://example.org/long/'', 8), (''https://example.org/long'', 8)] empty_database))
       = [''https://example.org/long'']"
    by (simp add: generate_def demo_env_def strip_trailing_slash_def find_by_normalized_url_def
        empty_database_def run_pipeline_def extract_article_def demo_fetch_def long_article_def
        default_min_words_def demo_stages_def save_quiz_to_db_def transaction_def
        bundle_writes_def never_fails_def demo_bundle_def)
  with one_bundle_per_normalized_url[of demo_env
      "[(''https://example.org/long/'', 8), (''https://example.org/long'', 8)]"]
  show ?thesis by simp
qed

section \<open>Content below the minimum word count\<close>

text \<open>
  C7, on the extractor and pipeline as the specification describes them. When the cleaned
  content fetched for a URL has fewer words than the configured minimum, extraction fails
  with \<open>Empty\<close> and the generation run fails with that error, so the run creates no
  bundle. A request for that URL returns that error and leaves the store unchanged, unless
  the duplicate resolver already holds a bundle under the URL's normalized form: then the
  request returns that stored bundle, without extraction being run.
\<close>

theorem short_content_rejected_unless_stored:
  assumes "fetch_clean env u = Inr a" and "wordCount a < min_words env"
  shows "extract_article env u = Inl (ExtractionError Empty)
         \<and> run_pipeline env u n = Inl (ExtractionError Empty)
         \<and> (find_by_normalized_url db (normalize_url env u) = None
              \<longrightarrow> generate env db u n = (db, Inl (ExtractionError Empty)))
         \<and> (\<forall>row. find_by_normalized_url db (normalize_url env u) = Some row
              \<longrightarrow> generate env db u n = (db, Inr (quiz_id row, stored_bundle db row)))"
  using assms by (simp add: extract_article_def run_pipeline_def generate_def)

theorem short_content_rejected_unless_stored_witness:
  "extract_article demo_env ''https://example.org/stub'' = Inl (ExtractionError Empty)
   \<and> run_pipeline demo_env ''https://example.org/stub'' 8 = Inl (ExtractionError Empty)
   \<and> generate demo_env empty_database ''https://example.org/stub'' 8
       = (empty_database, Inl (ExtractionError Empty))"
proof -
  have 1: "fetch_clean demo_env ''https://example.org/stub'' = Inr stub_article"
    by (simp add: demo_env_def demo_fetch_def)
  have 2: "wordCount stub_article < min_words demo_env"
    by (simp add: demo_env_def stub_article_def default_min_words_def)
  have 3: "find_by_normalized_url empty_database
             (normalize_url demo_env ''https://example.org/stub'') = None"
    by (simp add: find_by_normalized_url_def empty_database_def)
  from short_content_rejected_unless_stored[OF 1 2, of 8 empty_database] 3
  show ?thesis by simp
qed

lemma first_article_stored:
  "generate query_env empty_database ''https://example.org/article?id=1'' 8
     = (\<lparr>quizzes = [\<lparr>quiz_id = 1, url = ''https://example.org/article'',
                      row_title = ''Long'', row_summary = ''About a long page.'',
                      row_created = 7\<rparr>],
         key_entities = [(1, ''people'', ''Ada'')],
         question_rows = [(1, good_question), (1, other_question)],
         related_topics = [(1, ''Pages'')], next_id = 2\<rparr>,
        Inr (1, demo_bundle\<lparr>sourceUrl := ''https://example.org/article''\<rparr>))"
  by (simp add: generate_def query_env_def scheme_host_path_def strip_trailing_slash_def
      find_by_normalized_url_def empty_database_def run_pipeline_def extract_article_def
      query_fetch_def long_article_def default_min_words_def demo_stages_def
      save_quiz_to_db_def transaction_def bundle_writes_def never_fails_def demo_bundle_def)

text \<open>
  Where C7 as stated fails. Two URLs of one site differ in the query string, so they share a
  normalized URL. The first has a 2000-word article and its bundle is stored. The second
  has 250 words of content, below the minimum of 300, yet a request for it returns the
  bundle stored for the first.
\<close>

theorem short_content_served_from_store_counterexample:
  "fetch_clean query_env ''https://example.org/article?id=2'' = Inr stub_article
   \<and> wordCount stub_article = 250
   \<and> min_words query_env = 300
   \<and> snd (generate query_env
            (fst (generate query_env empty_database ''https://example.org/article?id=1'' 8))
            ''https://example.org/article?id=2'' 8)
       = Inr (1, demo_bundle\<lparr>sourceUrl := ''https://example.org/article''\<rparr>)"
proof -
  have "snd (generate query_env
            (fst (generate query_env empty_database ''https://example.org/article?id=1'' 8))
            ''https://example.org/article?id=2'' 8)
       = Inr (1, demo_bundle\<lparr>sourceUrl := ''https://example.org/article''\<rparr>)"
    unfolding first_article_stored
    by (simp add: generate_def query_env_def scheme_host_path_def strip_trailing_slash_def
        find_by_normalized_url_def stored_bundle_def demo_bundle_def)
  then show ?thesis
    by (simp add: query_env_def query_fetch_def stub_article_def default_min_words_def)
qed

end
